theory Spec2Isabelle
  imports Main "HOL-Library.Word" "HOL-Library.Sublist"
begin

section \<open>Data model\<close>

text \<open>
  The metrics worker of \<^verbatim>\<open>internal/metrics/update.go\<close>. Go values are embedded as follows.
  \<^item> A Go map is a partial function, wrapped in \<open>option\<close> so that the nil map
    (\<open>None\<close>) and the empty map made by \<^verbatim>\<open>make\<close> (\<open>Some Map.empty\<close>) stay apart;
    \<open>entries\<close> reads either one, as a Go lookup or \<^verbatim>\<open>range\<close> does.
  \<^item> The catalog \<^verbatim>\<open>mqmetric.Metrics\<close> is a tree of classes, types and elements. The
    library keeps its children in maps keyed by integers; the lists here are the
    order in which one \<^verbatim>\<open>range\<close> visits them. An element reaches its type and class
    through \<^verbatim>\<open>Parent\<close> pointers; since a value tree has no cycles, the record an element
    points to holds the scalar fields of the parent (\<open>MonType_fields\<close>,
    \<open>MonClass_fields\<close>) and the records of the tree extend them with the children.
    Only the fields this file reads are kept.
  \<^item> \<^verbatim>\<open>int64\<close> is a 64-bit word; \<^verbatim>\<open>float64\<close> is the type parameter \<open>'f\<close>, produced only by
    the library's \<^verbatim>\<open>Normalise\<close>, which is a parameter of the model.
  \<^item> The registry \<^verbatim>\<open>map[string]*metricData\<close> maps a key to the record the pointer
    refers to: \<^verbatim>\<open>initialiseMetrics\<close> allocates one record per key, so no two keys share
    one. A key that is absent reads as the nil pointer.
\<close>

type_synonym int64 = "64 word"
type_synonym ('k, 'v) gomap = "('k \<rightharpoonup> 'v) option"

definition entries :: "('k, 'v) gomap \<Rightarrow> ('k \<rightharpoonup> 'v)" where
  "entries m = (case m of None \<Rightarrow> Map.empty | Some f \<Rightarrow> f)"

record MonClass_fields =
  Name :: string

record MonType_fields =
  Parent :: MonClass_fields
  Name :: string
  ObjectTopic :: string

record MonElement =
  Parent :: MonType_fields
  Description :: string
  MetricName :: string
  Values :: "(string, int64) gomap"

record MonType = MonType_fields +
  Elements :: "MonElement list"

record MonClass = MonClass_fields +
  Types :: "MonType list"

record AllMetrics =
  Classes :: "MonClass list"

record 'f metricData =
  name :: string
  description :: string
  objectType :: bool
  "values" :: "(string, 'f) gomap"

type_synonym 'f registry = "(string, 'f metricData) gomap"

fun Contains :: "string \<Rightarrow> string \<Rightarrow> bool" where
  "Contains [] substr = (substr = [])"
| "Contains (c # s) substr = (prefix substr (c # s) \<or> Contains s substr)"

definition makeKey :: "MonElement \<Rightarrow> string" where
  "makeKey metricElement =
     MonClass_fields.Name (MonType_fields.Parent (MonElement.Parent metricElement)) @ ''/'' @
     MonType_fields.Name (MonElement.Parent metricElement) @ ''/'' @
     MetricName metricElement"

definition newMetric :: "MonElement \<Rightarrow> 'f metricData" where
  "newMetric metricElement =
     \<lparr>name = MetricName metricElement, description = Description metricElement,
      objectType = False, values = None\<rparr>"

type_synonym 'f init_state = "(string \<rightharpoonup> 'f metricData) \<times> bool \<times> string list"

fun initialiseElements :: "'f init_state \<Rightarrow> MonElement list \<Rightarrow> 'f init_state" where
  "initialiseElements s [] = s"
| "initialiseElements (metrics, validMetrics, logged) (metricElement # rest) =
     (let metric = newMetric metricElement;
          key = makeKey metricElement
      in if metrics key = None
         then initialiseElements (metrics(key \<mapsto> metric), validMetrics, logged) rest
         else initialiseElements
                (metrics, False,
                 logged @ [''Metrics Error: Found duplicate metric key '' @ key]) rest)"

fun initialiseTypes :: "'f init_state \<Rightarrow> MonType list \<Rightarrow> 'f init_state" where
  "initialiseTypes s [] = s"
| "initialiseTypes s (metricType # rest) =
     (if \<not> Contains (ObjectTopic metricType) ''%s''
      then initialiseTypes (initialiseElements s (Elements metricType)) rest
      else initialiseTypes s rest)"

fun initialiseClasses :: "'f init_state \<Rightarrow> MonClass list \<Rightarrow> 'f init_state" where
  "initialiseClasses s [] = s"
| "initialiseClasses s (metricClass # rest) =
     initialiseClasses (initialiseTypes s (Types metricClass)) rest"

definition initialiseMetrics :: "AllMetrics \<Rightarrow> 'f registry \<times> string option \<times> string list" where
  "initialiseMetrics Metrics =
     (case initialiseClasses (Map.empty, True, []) (Classes Metrics) of
        (metrics, validMetrics, logged) \<Rightarrow>
          if \<not> validMetrics
          then (Some metrics, Some ''Invalid metrics data - found duplicate metric keys'', logged)
          else (Some metrics, None, logged))"

definition typeElements :: "MonType \<Rightarrow> MonElement list" where
  "typeElements t = (if \<not> Contains (ObjectTopic t) ''%s'' then Elements t else [])"

definition classElements :: "MonClass \<Rightarrow> MonElement list" where
  "classElements c = concat (map typeElements (Types c))"

definition nonParamElements :: "AllMetrics \<Rightarrow> MonElement list" where
  "nonParamElements Metrics = concat (map classElements (Classes Metrics))"

definition allElements :: "AllMetrics \<Rightarrow> MonElement list" where
  "allElements Metrics = concat (map (\<lambda>c. concat (map Elements (Types c))) (Classes Metrics))"


section \<open>updateMetrics\<close>

text \<open>
  Writing through the nil pointer that a missing key yields panics. The inner
  \<^verbatim>\<open>range metricElement.Values\<close> loop stores one normalised value per cached label into
  a fresh map, which is the pointwise image \<open>normalised\<close>. The catalog is returned with
  the caches of the visited elements replaced by fresh empty maps.
\<close>

datatype panic = NilPointerDereference

definition normalised :: "(MonElement \<Rightarrow> string \<Rightarrow> int64 \<Rightarrow> 'f) \<Rightarrow> MonElement \<Rightarrow> (string, 'f) gomap" where
  "normalised Normalise metricElement =
     Some (\<lambda>label. map_option (Normalise metricElement label) (entries (Values metricElement) label))"

fun updateElements ::
  "(MonElement \<Rightarrow> string \<Rightarrow> int64 \<Rightarrow> 'f) \<Rightarrow> (string \<rightharpoonup> 'f metricData) \<Rightarrow> MonElement list
   \<Rightarrow> panic + ((string \<rightharpoonup> 'f metricData) \<times> MonElement list)" where
  "updateElements Normalise metrics [] = Inr (metrics, [])"
| "updateElements Normalise metrics (metricElement # rest) =
     (case metrics (makeKey metricElement) of
        None \<Rightarrow> Inl NilPointerDereference
      | Some metric \<Rightarrow>
          (case updateElements Normalise
                  (metrics(makeKey metricElement \<mapsto>
                     metric\<lparr>values := normalised Normalise metricElement\<rparr>)) rest of
             Inl p \<Rightarrow> Inl p
           | Inr (metrics', rest') \<Rightarrow>
               Inr (metrics', metricElement\<lparr>Values := Some Map.empty\<rparr> # rest')))"

fun updateTypes ::
  "(MonElement \<Rightarrow> string \<Rightarrow> int64 \<Rightarrow> 'f) \<Rightarrow> (string \<rightharpoonup> 'f metricData) \<Rightarrow> MonType list
   \<Rightarrow> panic + ((string \<rightharpoonup> 'f metricData) \<times> MonType list)" where
  "updateTypes Normalise metrics [] = Inr (metrics, [])"
| "updateTypes Normalise metrics (metricType # rest) =
     (if \<not> Contains (ObjectTopic metricType) ''%s''
      then (case updateElements Normalise metrics (Elements metricType) of
              Inl p \<Rightarrow> Inl p
            | Inr (metrics', elements') \<Rightarrow>
                (case updateTypes Normalise metrics' rest of
                   Inl p \<Rightarrow> Inl p
                 | Inr (metrics'', rest') \<Rightarrow>
                     Inr (metrics'', metricType\<lparr>Elements := elements'\<rparr> # rest')))
      else (case updateTypes Normalise metrics rest of
              Inl p \<Rightarrow> Inl p
            | Inr (metrics', rest') \<Rightarrow> Inr (metrics', metricType # rest')))"

fun updateClasses ::
  "(MonElement \<Rightarrow> string \<Rightarrow> int64 \<Rightarrow> 'f) \<Rightarrow> (string \<rightharpoonup> 'f metricData) \<Rightarrow> MonClass list
   \<Rightarrow> panic + ((string \<rightharpoonup> 'f metricData) \<times> MonClass list)" where
  "updateClasses Normalise metrics [] = Inr (metrics, [])"
| "updateClasses Normalise metrics (metricClass # rest) =
     (case updateTypes Normalise metrics (Types metricClass) of
        Inl p \<Rightarrow> Inl p
      | Inr (metrics', types') \<Rightarrow>
          (case updateClasses Normalise metrics' rest of
             Inl p \<Rightarrow> Inl p
           | Inr (metrics'', rest') \<Rightarrow> Inr (metrics'', metricClass\<lparr>Types := types'\<rparr> # rest')))"

definition updateMetrics ::
  "(MonElement \<Rightarrow> string \<Rightarrow> int64 \<Rightarrow> 'f) \<Rightarrow> 'f registry \<Rightarrow> AllMetrics
   \<Rightarrow> panic + ('f registry \<times> AllMetrics)" where
  "updateMetrics Normalise metrics Metrics =
     (case updateClasses Normalise (entries metrics) (Classes Metrics) of
        Inl p \<Rightarrow> Inl p
      | Inr (metrics', classes') \<Rightarrow>
          Inr (map_option (\<lambda>_. metrics') metrics, Metrics\<lparr>Classes := classes'\<rparr>))"

definition consume :: "MonElement \<Rightarrow> MonElement" where
  "consume e = e\<lparr>Values := Some Map.empty\<rparr>"

definition consumeType :: "MonType \<Rightarrow> MonType" where
  "consumeType t = (if \<not> Contains (ObjectTopic t) ''%s'' then t\<lparr>Elements := map consume (Elements t)\<rparr> else t)"

definition consumeClass :: "MonClass \<Rightarrow> MonClass" where
  "consumeClass c = c\<lparr>Types := map consumeType (Types c)\<rparr>"

definition refresh :: "(MonElement \<Rightarrow> string \<Rightarrow> int64 \<Rightarrow> 'f) \<Rightarrow> (string \<rightharpoonup> 'f metricData) \<Rightarrow> MonElement \<Rightarrow> (string \<rightharpoonup> 'f metricData)" where
  "refresh N m e = (case m (makeKey e) of None \<Rightarrow> m | Some metric \<Rightarrow> m(makeKey e \<mapsto> metric\<lparr>values := normalised N e\<rparr>))"

definition keysPresent :: "(string \<rightharpoonup> 'f metricData) \<Rightarrow> MonElement list \<Rightarrow> bool" where
  "keysPresent m es = list_all (\<lambda>e. m (makeKey e) \<noteq> None) es"


text \<open>A normalisation that returns the raw sample unchanged.\<close>

definition identityNormalise :: "MonElement \<Rightarrow> string \<Rightarrow> int64 \<Rightarrow> int64" where
  "identityNormalise metricElement label v = v"


section \<open>processMetrics\<close>

text \<open>
  The worker is a reactive loop: it runs for as long as its environment lets it. The
  model runs it against a finite script of what the environment does: for every pass of
  the outer loop the value of \<^verbatim>\<open>keepRunning\<close> read at the loop head, the outcome of the
  connection attempt and, for every pass of the inner loop, the caches after
  \<^verbatim>\<open>mqmetric.ProcessPublications\<close>, the error it returns and the case of the
  \<^verbatim>\<open>select\<close> that fires. The result is the worker's state, how the script ended
  (\<open>Returned\<close>: the outer loop was left; \<open>Running\<close>: the script ended while the worker
  was still looping; \<open>Crash\<close>: a panic) and the events in the order the code performs
  them.

  Modelled from the spec: \<^verbatim>\<open>mqmetric.ProcessPublications\<close> is library code; one round of
  it populates the per-element sample caches and changes nothing else of the catalog, so
  its effect is a new cache for every element.
\<close>

definition publishType :: "(MonElement \<Rightarrow> (string, int64) gomap) \<Rightarrow> MonType \<Rightarrow> MonType" where
  "publishType pub t = t\<lparr>Elements := map (\<lambda>e. e\<lparr>Values := pub e\<rparr>) (Elements t)\<rparr>"

definition publishClass :: "(MonElement \<Rightarrow> (string, int64) gomap) \<Rightarrow> MonClass \<Rightarrow> MonClass" where
  "publishClass pub c = c\<lparr>Types := map (publishType pub) (Types c)\<rparr>"

definition ProcessPublications :: "(MonElement \<Rightarrow> (string, int64) gomap) \<Rightarrow> AllMetrics \<Rightarrow> AllMetrics" where
  "ProcessPublications pub Metrics = Metrics\<lparr>Classes := map (publishClass pub) (Classes Metrics)\<rparr>"

datatype connect_result =
    Connected AllMetrics
  | InitConnectionStatsFailed string
  | DiscoverAndSubscribeFailed string

fun doConnect :: "string \<Rightarrow> connect_result \<Rightarrow> string option" where
  "doConnect qmName (InitConnectionStatsFailed err) =
     Some (''Failed to connect to queue manager '' @ qmName @ '': '' @ err)"
| "doConnect qmName (DiscoverAndSubscribeFailed err) =
     Some (''Failed to discover and subscribe to metrics: '' @ err)"
| "doConnect qmName (Connected discovered) = None"

fun discovered :: "connect_result \<Rightarrow> AllMetrics \<Rightarrow> AllMetrics" where
  "discovered (Connected Metrics') Metrics = Metrics'"
| "discovered (InitConnectionStatsFailed err) Metrics = Metrics"
| "discovered (DiscoverAndSubscribeFailed err) Metrics = Metrics"

datatype select_case = Request bool | Timeout

record inner_input =
  published :: "MonElement \<Rightarrow> (string, int64) gomap"
  publicationsError :: "string option"
  selected :: select_case

record outer_input =
  keepRunning :: bool
  connecting :: connect_result
  servicing :: "inner_input list"

datatype 'f event =
    DoConnect "string option"
  | WgDone
  | Publications "string option"
  | Receive bool
  | UpdateMetrics
  | Respond "'f registry"
  | Debugf string
  | Errorf string
  | EndConnection
  | Sleep nat
  | Panicked panic

definition requestTimeout :: nat where
  "requestTimeout = 10"

record 'f worker =
  first :: bool
  metrics :: "'f registry"
  Metrics :: AllMetrics

definition selectRequest ::
  "(MonElement \<Rightarrow> string \<Rightarrow> int64 \<Rightarrow> 'f) \<Rightarrow> 'f worker \<Rightarrow> select_case
   \<Rightarrow> 'f event list + ('f worker \<times> 'f event list)" where
  "selectRequest Normalise w sel =
     (case sel of
        Request collect \<Rightarrow>
          if collect
          then (case updateMetrics Normalise (metrics w) (Metrics w) of
                  Inl p \<Rightarrow> Inl [Receive collect, UpdateMetrics, Panicked p]
                | Inr (metrics', Metrics') \<Rightarrow>
                    Inr (w\<lparr>metrics := metrics', Metrics := Metrics'\<rparr>,
                         [Receive collect, UpdateMetrics, Respond metrics']))
          else Inr (w, [Receive collect, Respond (metrics w)])
      | Timeout \<Rightarrow>
          Inr (w, [Debugf ''Metrics: No requests received within timeout period (10 seconds)'']))"

definition innerIteration ::
  "(MonElement \<Rightarrow> string \<Rightarrow> int64 \<Rightarrow> 'f) \<Rightarrow> 'f worker \<Rightarrow> inner_input
   \<Rightarrow> 'f event list + ('f worker \<times> string option \<times> 'f event list)" where
  "innerIteration Normalise w inp =
     (let w1 = w\<lparr>Metrics := ProcessPublications (published inp) (Metrics w)\<rparr>;
          err = publicationsError inp
      in case selectRequest Normalise w1 (selected inp) of
           Inl evs \<Rightarrow> Inl (Publications err # evs)
         | Inr (w2, evs) \<Rightarrow> Inr (w2, err, Publications err # evs))"

datatype loop_exit = Broke string | Pending | Crashed

fun innerLoop ::
  "(MonElement \<Rightarrow> string \<Rightarrow> int64 \<Rightarrow> 'f) \<Rightarrow> 'f worker \<Rightarrow> string option \<Rightarrow> inner_input list
   \<Rightarrow> 'f worker \<times> loop_exit \<times> 'f event list" where
  "innerLoop Normalise w (Some e) inputs = (w, Broke e, [])"
| "innerLoop Normalise w None [] = (w, Pending, [])"
| "innerLoop Normalise w None (inp # rest) =
     (case innerIteration Normalise w inp of
        Inl evs \<Rightarrow> (w, Crashed, evs)
      | Inr (w', err, evs) \<Rightarrow>
          (case innerLoop Normalise w' err rest of
             (w'', exit, evs') \<Rightarrow> (w'', exit, evs @ evs')))"

definition onConnected :: "'f worker \<Rightarrow> AllMetrics \<Rightarrow> 'f worker \<times> 'f event list" where
  "onConnected w discoveredMetrics =
     (let (w1, signalled) = (if first w then (w\<lparr>first := False\<rparr>, [WgDone]) else (w, []));
          (metrics', err, logged) = initialiseMetrics discoveredMetrics
      in (w1\<lparr>metrics := metrics', Metrics := discoveredMetrics\<rparr>, signalled @ map Errorf logged))"

datatype run_exit = Returned | Running | Crash

fun processMetrics ::
  "(MonElement \<Rightarrow> string \<Rightarrow> int64 \<Rightarrow> 'f) \<Rightarrow> string \<Rightarrow> 'f worker \<Rightarrow> outer_input list
   \<Rightarrow> 'f worker \<times> run_exit \<times> 'f event list" where
  "processMetrics Normalise qmName w [] = (w, Running, [])"
| "processMetrics Normalise qmName w (inp # rest) =
     (if \<not> keepRunning inp then (w, Returned, [])
      else
        let err = doConnect qmName (connecting inp);
            (w1, evs1) = (if err = None
                          then onConnected w (discovered (connecting inp) (Metrics w))
                          else (w, []))
        in case innerLoop Normalise w1 err (servicing inp) of
             (w2, Broke e, evs2) \<Rightarrow>
               (case processMetrics Normalise qmName w2 rest of
                  (w3, exit, evs3) \<Rightarrow>
                    (w3, exit,
                     DoConnect err # evs1 @ evs2 @
                     [Errorf (''Metrics Error: '' @ e), EndConnection, Sleep 10] @ evs3))
           | (w2, Pending, evs2) \<Rightarrow> (w2, Running, DoConnect err # evs1 @ evs2)
           | (w2, Crashed, evs2) \<Rightarrow> (w2, Crash, DoConnect err # evs1 @ evs2))"

definition trace :: "'f worker \<times> run_exit \<times> 'f event list \<Rightarrow> 'f event list" where
  "trace r = snd (snd r)"

definition initialWorker :: "'f worker" where
  "initialWorker = \<lparr>first = True, metrics = None, Metrics = \<lparr>Classes = []\<rparr>\<rparr>"

definition registryCovers :: "'f worker \<Rightarrow> bool" where
  "registryCovers w = keysPresent (entries (metrics w)) (nonParamElements (Metrics w))"

fun isDoConnect :: "'f event \<Rightarrow> bool" where
  "isDoConnect (DoConnect err) = True"
| "isDoConnect _ = False"

fun isReceive :: "'f event \<Rightarrow> bool" where
  "isReceive (Receive collect) = True"
| "isReceive _ = False"

fun isRespond :: "'f event \<Rightarrow> bool" where
  "isRespond (Respond r) = True"
| "isRespond _ = False"

fun serviceEvent :: "'f event \<Rightarrow> bool" where
  "serviceEvent (Publications err) = True"
| "serviceEvent (Receive collect) = True"
| "serviceEvent UpdateMetrics = True"
| "serviceEvent (Respond r) = True"
| "serviceEvent (Debugf msg) = True"
| "serviceEvent (Panicked p) = True"
| "serviceEvent _ = False"

fun waitsBeforeConnect :: "'f event list \<Rightarrow> bool" where
  "waitsBeforeConnect (a # b # evs) =
     ((isDoConnect b \<longrightarrow> a = Sleep 10) \<and> waitsBeforeConnect (b # evs))"
| "waitsBeforeConnect evs = True"

definition connectionLost :: "string \<Rightarrow> 'f event list" where
  "connectionLost e = [Errorf (''Metrics Error: '' @ e), EndConnection, Sleep 10]"


section \<open>Example inputs\<close>

text \<open>
  A catalog with one class \<open>CPU\<close> and one type \<open>SystemSummary\<close> whose topic has no
  per-object placeholder, holding the given elements.
\<close>

definition exampleClass :: MonClass_fields where
  "exampleClass = \<lparr>MonClass_fields.Name = ''CPU''\<rparr>"

definition exampleType :: MonType_fields where
  "exampleType =
     \<lparr>MonType_fields.Parent = exampleClass, Name = ''SystemSummary'',
      ObjectTopic = ''$SYS/MQ/INFO/QMGR/QM1/Monitor/CPU/SystemSummary''\<rparr>"

definition exampleElement :: "string \<Rightarrow> string \<Rightarrow> (string, int64) gomap \<Rightarrow> MonElement" where
  "exampleElement n d vs =
     \<lparr>MonElement.Parent = exampleType, Description = d, MetricName = n, Values = vs\<rparr>"

definition exampleCatalog :: "MonElement list \<Rightarrow> AllMetrics" where
  "exampleCatalog es =
     \<lparr>Classes =
        [\<lparr>MonClass_fields.Name = ''CPU'',
          Types =
            [\<lparr>MonType_fields.Parent = exampleClass, Name = ''SystemSummary'',
              ObjectTopic = ''$SYS/MQ/INFO/QMGR/QM1/Monitor/CPU/SystemSummary'',
              Elements = es\<rparr>]\<rparr>]\<rparr>"


text \<open>Two elements with the same derived key: the first holds cached samples, the second none.\<close>

definition sampled :: MonElement where
  "sampled = exampleElement ''x'' ''first'' (Some [''a'' \<mapsto> 10, ''b'' \<mapsto> 20])"

definition duplicate :: MonElement where
  "duplicate = exampleElement ''x'' ''second'' (Some Map.empty)"

section \<open>The registry built by initialiseMetrics\<close>

lemma initialiseElements_append:
  "initialiseElements s (xs @ ys) = initialiseElements (initialiseElements s xs) ys"
proof (induction xs arbitrary: s)
  case Nil
  show ?case by simp
next
  case (Cons x xs)
  obtain m v l where s: "s = (m, v, l)" by (cases s)
  show ?case unfolding s by (simp add: Let_def Cons.IH)
qed

lemma initialiseTypes_flat:
  "initialiseTypes s ts = initialiseElements s (concat (map typeElements ts))"
  by (induction ts arbitrary: s) (simp_all add: typeElements_def initialiseElements_append)

lemma initialiseClasses_flat:
  "initialiseClasses s cs = initialiseElements s (concat (map classElements cs))"
  by (induction cs arbitrary: s)
     (simp_all add: classElements_def initialiseTypes_flat initialiseElements_append)

lemma initialiseElements_lookup:
  "fst (initialiseElements (m, v, l) es) k =
     (case m k of Some x \<Rightarrow> Some x
      | None \<Rightarrow> map_option newMetric (find (\<lambda>e. makeKey e = k) es))"
proof (induction es arbitrary: m v l)
  case Nil
  show ?case by (simp split: option.split)
next
  case (Cons e es)
  show ?case by (auto simp: Let_def Cons.IH split: option.split)
qed

lemma initialiseElements_valid:
  "fst (snd (initialiseElements (m, v, l) es)) =
     (v \<and> distinct (map makeKey es) \<and> (\<forall>e \<in> set es. m (makeKey e) = None))"
proof (induction es arbitrary: m v l)
  case Nil
  show ?case by simp
next
  case (Cons e es)
  show ?case by (auto simp: Let_def Cons.IH image_iff)
qed

lemma initialiseElements_dom:
  "dom (fst (initialiseElements (m, v, l) es)) = dom m \<union> makeKey ` set es"
proof (induction es arbitrary: m v l)
  case Nil
  show ?case by simp
next
  case (Cons e es)
  show ?case by (auto simp: Let_def Cons.IH)
qed

lemma initialiseMetrics_registry:
  "fst (initialiseMetrics cat) =
     Some (fst (initialiseElements (Map.empty, True, []) (nonParamElements cat)))"
  by (simp add: initialiseMetrics_def initialiseClasses_flat nonParamElements_def
      split: prod.split)

lemma initialiseMetrics_error:
  "fst (snd (initialiseMetrics cat :: 'f registry \<times> string option \<times> string list)) =
     (if distinct (map makeKey (nonParamElements cat)) then None
      else Some ''Invalid metrics data - found duplicate metric keys'')"
proof -
  let ?r = "initialiseElements (Map.empty, True, []) (nonParamElements cat) :: 'f init_state"
  have "fst (snd (initialiseMetrics cat :: 'f registry \<times> string option \<times> string list)) =
          (if fst (snd ?r) then None
           else Some ''Invalid metrics data - found duplicate metric keys'')"
    by (simp add: initialiseMetrics_def initialiseClasses_flat nonParamElements_def
        split: prod.split)
  then show ?thesis
    by (simp add: initialiseElements_valid)
qed

lemma nonParam_all:
  "\<forall>c \<in> set (Classes cat). \<forall>t \<in> set (Types c). \<not> Contains (ObjectTopic t) ''%s''
   \<Longrightarrow> nonParamElements cat = allElements cat"
proof -
  assume a: "\<forall>c \<in> set (Classes cat). \<forall>t \<in> set (Types c). \<not> Contains (ObjectTopic t) ''%s''"
  have "\<And>c. c \<in> set (Classes cat) \<Longrightarrow> classElements c = concat (map Elements (Types c))"
    using a by (auto simp: classElements_def typeElements_def intro!: arg_cong [where f=concat])
  then show ?thesis
    by (auto simp: nonParamElements_def allElements_def intro!: arg_cong [where f=concat])
qed

lemma nonParamElements_example: "nonParamElements (exampleCatalog es) = es"
  by (simp add: nonParamElements_def classElements_def typeElements_def exampleCatalog_def)

lemma allElements_example: "allElements (exampleCatalog es) = es"
  by (simp add: allElements_def exampleCatalog_def)

lemma makeKey_example: "makeKey (exampleElement n d vs) = ''CPU/SystemSummary/'' @ n"
  by (simp add: makeKey_def exampleElement_def exampleType_def exampleClass_def)

lemma initialiseMetrics_example:
  "fst (initialiseMetrics (exampleCatalog [exampleElement n d vs])) =
     Some [''CPU/SystemSummary/'' @ n \<mapsto> newMetric (exampleElement n d vs)]"
  by (simp add: initialiseMetrics_registry nonParamElements_example makeKey_example Let_def)

lemma makeKey_sampled: "makeKey sampled = ''CPU/SystemSummary/x''"
  by (simp add: sampled_def makeKey_example)

lemma makeKey_duplicate: "makeKey duplicate = ''CPU/SystemSummary/x''"
  by (simp add: duplicate_def makeKey_example)

lemma initialiseMetrics_colliding:
  "fst (initialiseMetrics (exampleCatalog [sampled, duplicate])) =
     Some [''CPU/SystemSummary/x'' \<mapsto> newMetric sampled]"
  by (simp add: initialiseMetrics_registry nonParamElements_example makeKey_sampled
      makeKey_duplicate Let_def)

text \<open>
  Claim C2. When no type of the catalog has a topic template containing the per-object
  placeholder \<^verbatim>\<open>%s\<close> and no two elements have the same derived key, the registry
  returned by \<^verbatim>\<open>initialiseMetrics\<close> has as its keys exactly the keys
  grandparent name, \<^verbatim>\<open>/\<close>, parent name, \<^verbatim>\<open>/\<close>, metric name of the catalog's
  elements, and the returned error is nil.
\<close>

theorem initialiseMetrics_keys:
  assumes "\<forall>c \<in> set (Classes cat). \<forall>t \<in> set (Types c). \<not> Contains (ObjectTopic t) ''%s''"
    and "distinct (map makeKey (allElements cat))"
  shows "dom (entries (fst (initialiseMetrics cat :: 'f registry \<times> string option \<times> string list)))
           = makeKey ` set (allElements cat)
         \<and> fst (snd (initialiseMetrics cat :: 'f registry \<times> string option \<times> string list)) = None"
proof -
  have eq: "nonParamElements cat = allElements cat"
    using assms(1) by (rule nonParam_all)
  show ?thesis
    using assms(2)
    by (simp add: initialiseMetrics_registry initialiseMetrics_error eq entries_def
        initialiseElements_dom)
qed

theorem initialiseMetrics_keys_witness:
  "dom (entries (fst (initialiseMetrics
          (exampleCatalog [exampleElement ''x'' ''dx'' None, exampleElement ''y'' ''dy'' None])
        :: int64 registry \<times> string option \<times> string list)))
     = {''CPU/SystemSummary/x'', ''CPU/SystemSummary/y''}
   \<and> fst (snd (initialiseMetrics
          (exampleCatalog [exampleElement ''x'' ''dx'' None, exampleElement ''y'' ''dy'' None])
        :: int64 registry \<times> string option \<times> string list)) = None"
proof -
  let ?cat = "exampleCatalog [exampleElement ''x'' ''dx'' None, exampleElement ''y'' ''dy'' None]"
  have h1: "\<forall>c \<in> set (Classes ?cat). \<forall>t \<in> set (Types c). \<not> Contains (ObjectTopic t) ''%s''"
    by (simp add: exampleCatalog_def)
  have h2: "distinct (map makeKey (allElements ?cat))"
    by (simp add: allElements_example makeKey_example)
  from initialiseMetrics_keys [OF h1 h2, where ?'f = int64] show ?thesis
    by (auto simp: allElements_example makeKey_example)
qed

section \<open>What updateMetrics computes\<close>

lemma dom_refresh: "dom (refresh N m e) = dom m"
  by (auto simp: refresh_def split: option.splits)

lemma refresh_None: "refresh N m e k = None \<longleftrightarrow> m k = None"
  by (auto simp: refresh_def split: option.splits)

lemma foldl_refresh_None: "foldl (refresh N) m es k = None \<longleftrightarrow> m k = None"
  by (induction es arbitrary: m) (simp_all add: refresh_None)

lemma keysPresent_refresh: "keysPresent (refresh N m e) es = keysPresent m es"
  by (simp add: keysPresent_def refresh_None)

lemma keysPresent_foldl: "keysPresent (foldl (refresh N) m xs) es = keysPresent m es"
  by (simp add: keysPresent_def foldl_refresh_None)

lemma keysPresent_append: "keysPresent m (xs @ ys) = (keysPresent m xs \<and> keysPresent m ys)"
  by (simp add: keysPresent_def)

lemma updateElements_eq:
  "updateElements N m es =
     (if keysPresent m es then Inr (foldl (refresh N) m es, map consume es)
      else Inl NilPointerDereference)"
proof (induction es arbitrary: m)
  case Nil
  show ?case by (simp add: keysPresent_def)
next
  case (Cons e es)
  show ?case
  proof (cases "m (makeKey e)")
    case None
    then show ?thesis by (simp add: keysPresent_def)
  next
    case (Some metric)
    have r: "m(makeKey e \<mapsto> metric\<lparr>values := normalised N e\<rparr>) = refresh N m e"
      by (simp add: refresh_def Some)
    have k: "keysPresent m (e # es) = keysPresent (refresh N m e) es"
      by (simp add: keysPresent_def Some refresh_None)
    show ?thesis
      by (simp add: Some k Cons.IH r consume_def del: fun_upd_apply)
  qed
qed

lemma updateTypes_eq:
  "updateTypes N m ts =
     (if keysPresent m (concat (map typeElements ts))
      then Inr (foldl (refresh N) m (concat (map typeElements ts)), map consumeType ts)
      else Inl NilPointerDereference)"
proof (induction ts arbitrary: m)
  case Nil
  show ?case by (simp add: keysPresent_def)
next
  case (Cons t ts)
  show ?case
  proof (cases "Contains (ObjectTopic t) ''%s''")
    case True
    then have te: "typeElements t = []" and ct: "consumeType t = t"
      by (simp_all add: typeElements_def consumeType_def)
    show ?thesis
      by (simp add: True Cons.IH te ct)
  next
    case False
    then have te: "typeElements t = Elements t"
      and ct: "consumeType t = t\<lparr>Elements := map consume (Elements t)\<rparr>"
      by (simp_all add: typeElements_def consumeType_def)
    show ?thesis
      by (simp add: False Cons.IH te ct updateElements_eq keysPresent_append keysPresent_foldl)
  qed
qed

lemma updateClasses_eq:
  "updateClasses N m cs =
     (if keysPresent m (concat (map classElements cs))
      then Inr (foldl (refresh N) m (concat (map classElements cs)), map consumeClass cs)
      else Inl NilPointerDereference)"
proof (induction cs arbitrary: m)
  case Nil
  show ?case by (simp add: keysPresent_def)
next
  case (Cons c cs)
  have ce: "concat (map typeElements (Types c)) = classElements c"
    and cc: "c\<lparr>Types := map consumeType (Types c)\<rparr> = consumeClass c"
    by (simp_all add: classElements_def consumeClass_def)
  show ?case
    by (simp add: Cons.IH updateTypes_eq ce cc keysPresent_append keysPresent_foldl)
qed

lemma updateMetrics_eq:
  "updateMetrics N reg cat =
     (if keysPresent (entries reg) (nonParamElements cat)
      then Inr (map_option (\<lambda>_. foldl (refresh N) (entries reg) (nonParamElements cat)) reg,
                cat\<lparr>Classes := map consumeClass (Classes cat)\<rparr>)
      else Inl NilPointerDereference)"
  by (simp add: updateMetrics_def updateClasses_eq nonParamElements_def)

lemma makeKey_consume: "makeKey (consume e) = makeKey e"
  by (simp add: makeKey_def consume_def)

lemma typeElements_consume: "typeElements (consumeType t) = map consume (typeElements t)"
  by (simp add: typeElements_def consumeType_def)

lemma classElements_consume: "classElements (consumeClass c) = map consume (classElements c)"
  by (simp add: classElements_def consumeClass_def map_concat typeElements_consume comp_def)

lemma nonParamElements_consume:
  "nonParamElements (cat\<lparr>Classes := map consumeClass (Classes cat)\<rparr>) =
     map consume (nonParamElements cat)"
  by (simp add: nonParamElements_def map_concat classElements_consume comp_def)

lemma normalised_consume: "normalised N (consume e) = Some Map.empty"
  by (simp add: normalised_def consume_def entries_def)

lemma keysPresent_consume: "keysPresent m (map consume es) = keysPresent m es"
  by (simp add: keysPresent_def list_all_iff makeKey_consume)

lemma refresh_other: "makeKey e \<noteq> k \<Longrightarrow> refresh N m e k = m k"
  by (simp add: refresh_def split: option.splits)

lemma foldl_refresh_other:
  "\<forall>e \<in> set es. makeKey e \<noteq> k \<Longrightarrow> foldl (refresh N) m es k = m k"
  by (induction es arbitrary: m) (simp_all add: refresh_other)

lemma refresh_same:
  "m (makeKey e) = Some metric \<Longrightarrow>
   refresh N m e (makeKey e) = Some (metric\<lparr>values := normalised N e\<rparr>)"
  by (simp add: refresh_def)

lemma foldl_refresh_last:
  assumes "m (makeKey e) \<noteq> None" and "\<forall>e' \<in> set post. makeKey e' \<noteq> makeKey e"
  shows "\<exists>metric. foldl (refresh N) m (pre @ e # post) (makeKey e) = Some metric
           \<and> values metric = normalised N e"
proof -
  have "foldl (refresh N) m pre (makeKey e) \<noteq> None"
    using assms(1) by (simp add: foldl_refresh_None)
  then obtain metric where m: "foldl (refresh N) m pre (makeKey e) = Some metric"
    by blast
  have "foldl (refresh N) m (pre @ e # post) (makeKey e) =
          refresh N (foldl (refresh N) m pre) e (makeKey e)"
    using assms(2) by (simp add: foldl_refresh_other)
  also have "\<dots> = Some (metric\<lparr>values := normalised N e\<rparr>)"
    using m by (rule refresh_same)
  finally show ?thesis by simp
qed

lemma foldl_refresh_uniform:
  assumes "\<forall>e \<in> set es. normalised N e = v" and "k \<in> makeKey ` set es" and "m k \<noteq> None"
  shows "\<exists>metric. foldl (refresh N) m es k = Some metric \<and> values metric = v"
  using assms
proof (induction es arbitrary: m)
  case Nil
  then show ?case by simp
next
  case (Cons e es)
  show ?case
  proof (cases "k \<in> makeKey ` set es")
    case True
    have "refresh N m e k \<noteq> None" using Cons.prems(3) by (simp add: refresh_None)
    with Cons.IH [of "refresh N m e"] Cons.prems(1) True show ?thesis by simp
  next
    case False
    with Cons.prems(2) have k: "k = makeKey e" by auto
    from False have "\<forall>e' \<in> set es. makeKey e' \<noteq> makeKey e" unfolding k by (auto simp: image_iff)
    with foldl_refresh_last [of m e es N "[]"] Cons.prems(1,3) show ?thesis
      unfolding k by simp
  qed
qed

lemma keysPresent_iff: "keysPresent m es \<longleftrightarrow> (\<forall>e \<in> set es. m (makeKey e) \<noteq> None)"
  by (simp add: keysPresent_def list_all_iff)

lemma entries_map_option:
  "reg \<noteq> None \<Longrightarrow> entries (map_option (\<lambda>_. m') reg) = m'"
  by (cases reg) (simp_all add: entries_def)

lemma consume_example:
  "consume (exampleElement n d vs) = exampleElement n d (Some Map.empty)"
  by (simp add: consume_def exampleElement_def)

lemma consumeClass_example:
  "(exampleCatalog es)\<lparr>Classes := map consumeClass (Classes (exampleCatalog es))\<rparr> =
     exampleCatalog (map consume es)"
  by (simp add: exampleCatalog_def consumeClass_def consumeType_def)

lemma updateMetrics_example:
  "updateMetrics N (fst (initialiseMetrics (exampleCatalog [exampleElement n d vs])))
       (exampleCatalog [exampleElement n d vs]) =
     Inr (Some [''CPU/SystemSummary/'' @ n \<mapsto>
                  (newMetric (exampleElement n d vs))\<lparr>values := normalised N (exampleElement n d vs)\<rparr>],
          exampleCatalog [exampleElement n d (Some Map.empty)])"
  by (simp add: updateMetrics_eq initialiseMetrics_example nonParamElements_example keysPresent_def
      entries_def makeKey_example refresh_def consumeClass_example consume_example)

text \<open>
  Claim C4. \<^verbatim>\<open>updateMetrics\<close> is idempotent per cycle. When a first call returns, a
  second call on the registry and catalog it left, with no samples cached in between,
  returns as well, and afterwards the metric of every non-parameterized element of the
  catalog has an empty values mapping; the sample cache of every such element is empty,
  because the first call cleared it.
\<close>

theorem updateMetrics_twice:
  assumes "updateMetrics N reg cat = Inr (metrics1, Metrics1)"
  shows "\<exists>metrics2 Metrics2.
           updateMetrics N metrics1 Metrics1 = Inr (metrics2, Metrics2)
           \<and> (\<forall>e \<in> set (nonParamElements cat).
                 \<exists>metric. entries metrics2 (makeKey e) = Some metric
                          \<and> entries (values metric) = Map.empty)
           \<and> (\<forall>e \<in> set (nonParamElements Metrics2). entries (Values e) = Map.empty)"
proof -
  let ?es = "nonParamElements cat"
  from assms have kp: "keysPresent (entries reg) ?es"
    and m1: "metrics1 = map_option (\<lambda>_. foldl (refresh N) (entries reg) ?es) reg"
    and M1: "Metrics1 = cat\<lparr>Classes := map consumeClass (Classes cat)\<rparr>"
    by (simp_all add: updateMetrics_eq split: if_splits)
  have es1: "nonParamElements Metrics1 = map consume ?es"
    unfolding M1 by (rule nonParamElements_consume)
  have present: "entries metrics1 (makeKey e) \<noteq> None" if e: "e \<in> set ?es" for e
  proof -
    from kp e have "entries reg (makeKey e) \<noteq> None" by (simp add: keysPresent_iff)
    then have "reg \<noteq> None" by (cases reg) (simp_all add: entries_def)
    then have "entries metrics1 = foldl (refresh N) (entries reg) ?es"
      unfolding m1 by (rule entries_map_option)
    with kp e show ?thesis by (simp add: foldl_refresh_None keysPresent_iff)
  qed
  then have "keysPresent (entries metrics1) ?es"
    unfolding keysPresent_iff by blast
  then have kp1: "keysPresent (entries metrics1) (nonParamElements Metrics1)"
    by (simp add: es1 keysPresent_consume)
  let ?m2 = "foldl (refresh N) (entries metrics1) (map consume ?es)"
  let ?M2 = "Metrics1\<lparr>Classes := map consumeClass (Classes Metrics1)\<rparr>"
  have u2: "updateMetrics N metrics1 Metrics1 = Inr (map_option (\<lambda>_. ?m2) metrics1, ?M2)"
    using kp1 by (simp add: updateMetrics_eq es1)
  have a: "\<exists>metric. entries (map_option (\<lambda>_. ?m2) metrics1) (makeKey e) = Some metric
                   \<and> entries (values metric) = Map.empty" if e: "e \<in> set ?es" for e
  proof -
    have p: "entries metrics1 (makeKey e) \<noteq> None" using e by (rule present)
    then have nn1: "metrics1 \<noteq> None" by (cases metrics1) (simp_all add: entries_def)
    have "makeKey e \<in> makeKey ` set (map consume ?es)"
      using e by (force simp: makeKey_consume image_iff)
    moreover have "\<forall>e' \<in> set (map consume ?es). normalised N e' = Some Map.empty"
      by (auto simp: normalised_consume)
    ultimately obtain metric where g: "?m2 (makeKey e) = Some metric"
      and v: "values metric = Some Map.empty"
      using p foldl_refresh_uniform [of "map consume ?es" N "Some Map.empty" "makeKey e" "entries metrics1"]
      by blast
    have "entries (map_option (\<lambda>_. ?m2) metrics1) (makeKey e) = Some metric"
      using g by (simp only: entries_map_option [OF nn1])
    moreover have "entries (values metric) = Map.empty"
      by (simp add: v entries_def)
    ultimately show ?thesis by blast
  qed
  have "nonParamElements ?M2 = map consume (nonParamElements Metrics1)"
    by (rule nonParamElements_consume)
  then have b: "\<forall>e \<in> set (nonParamElements ?M2). entries (Values e) = Map.empty"
    by (auto simp: consume_def entries_def)
  show ?thesis using u2 a b by blast
qed

theorem updateMetrics_twice_witness:
  "\<exists>reg1 cat1 reg2 cat2 metric.
     updateMetrics identityNormalise
       (fst (initialiseMetrics (exampleCatalog
          [exampleElement ''x'' ''dx'' (Some [''a'' \<mapsto> 10])])))
       (exampleCatalog [exampleElement ''x'' ''dx'' (Some [''a'' \<mapsto> 10])]) = Inr (reg1, cat1)
     \<and> updateMetrics identityNormalise reg1 cat1 = Inr (reg2, cat2)
     \<and> entries reg2 ''CPU/SystemSummary/x'' = Some metric
     \<and> entries (values metric) = Map.empty"
proof -
  let ?e = "exampleElement ''x'' ''dx'' (Some [''a'' \<mapsto> 10])"
  let ?cat = "exampleCatalog [?e]"
  obtain reg1 cat1 where
    h: "updateMetrics identityNormalise (fst (initialiseMetrics ?cat)) ?cat = Inr (reg1, cat1)"
    by (simp add: updateMetrics_example)
  from updateMetrics_twice [OF h] obtain reg2 cat2 where
    u: "updateMetrics identityNormalise reg1 cat1 = Inr (reg2, cat2)"
    and v: "\<forall>e \<in> set (nonParamElements ?cat).
              \<exists>metric. entries reg2 (makeKey e) = Some metric \<and> entries (values metric) = Map.empty"
    by blast
  from v obtain metric where "entries reg2 ''CPU/SystemSummary/x'' = Some metric"
    and "entries (values metric) = Map.empty"
    by (auto simp: nonParamElements_example makeKey_example)
  with h u show ?thesis by blast
qed

text \<open>
  Claim C5, amended. Let a call of \<^verbatim>\<open>updateMetrics\<close> return, let \<open>e\<close> be a
  non-parameterized element of the catalog with cached raw samples \<open>{a: 10, b: 20}\<close>
  such that no element visited after \<open>e\<close> has the same derived key, and let the
  normalisation of \<open>e\<close> return the raw sample (through any fixed conversion \<open>conv\<close>
  of \<^verbatim>\<open>int64\<close> to \<^verbatim>\<open>float64\<close>). Then the values mapping of the metric of \<open>e\<close> is exactly
  \<open>{a: conv 10, b: conv 20}\<close>, whatever it held before, and the sample cache of \<open>e\<close> is
  empty afterwards.
\<close>

theorem updateMetrics_roundtrip:
  assumes "updateMetrics N reg cat = Inr (metrics', Metrics')"
    and "nonParamElements cat = pre @ e # post"
    and "\<forall>e' \<in> set post. makeKey e' \<noteq> makeKey e"
    and "entries (Values e) = [''a'' \<mapsto> 10, ''b'' \<mapsto> 20]"
    and "\<forall>label v. N e label v = conv v"
  shows "\<exists>metric. entries metrics' (makeKey e) = Some metric
           \<and> entries (values metric) = [''a'' \<mapsto> conv 10, ''b'' \<mapsto> conv 20]
           \<and> nonParamElements Metrics' ! length pre = e\<lparr>Values := Some Map.empty\<rparr>
           \<and> entries (Values (nonParamElements Metrics' ! length pre)) = Map.empty"
proof -
  let ?es = "nonParamElements cat"
  from assms(1) have kp: "keysPresent (entries reg) ?es"
    and m1: "metrics' = map_option (\<lambda>_. foldl (refresh N) (entries reg) ?es) reg"
    and M1: "Metrics' = cat\<lparr>Classes := map consumeClass (Classes cat)\<rparr>"
    by (simp_all add: updateMetrics_eq split: if_splits)
  from kp have ke: "entries reg (makeKey e) \<noteq> None"
    by (simp add: assms(2) keysPresent_iff)
  then have nn: "reg \<noteq> None" by (cases reg) (simp_all add: entries_def)
  then have e1: "entries metrics' = foldl (refresh N) (entries reg) ?es"
    unfolding m1 by (rule entries_map_option)
  obtain metric where f: "foldl (refresh N) (entries reg) (pre @ e # post) (makeKey e) = Some metric"
    and v: "values metric = normalised N e"
    using foldl_refresh_last [of "entries reg" e post N pre] ke assms(3) by blast
  have n: "entries (normalised N e) = [''a'' \<mapsto> conv 10, ''b'' \<mapsto> conv 20]"
    using assms(4,5) by (auto simp: normalised_def entries_def)
  have c: "nonParamElements Metrics' ! length pre = consume e"
    by (simp add: M1 nonParamElements_consume assms(2) nth_append)
  have "entries metrics' (makeKey e) = Some metric"
    using f by (simp only: e1 assms(2))
  moreover have "entries (values metric) = [''a'' \<mapsto> conv 10, ''b'' \<mapsto> conv 20]"
    using n by (simp only: v)
  moreover have "nonParamElements Metrics' ! length pre = e\<lparr>Values := Some Map.empty\<rparr>"
    using c by (simp add: consume_def)
  moreover have "entries (Values (nonParamElements Metrics' ! length pre)) = Map.empty"
    by (simp add: c consume_def entries_def)
  ultimately show ?thesis by blast
qed

theorem updateMetrics_roundtrip_witness:
  "updateMetrics identityNormalise (fst (initialiseMetrics (exampleCatalog [sampled])))
       (exampleCatalog [sampled]) =
     Inr (Some [''CPU/SystemSummary/x'' \<mapsto>
                  (newMetric sampled)\<lparr>values := normalised identityNormalise sampled\<rparr>],
          exampleCatalog [exampleElement ''x'' ''first'' (Some Map.empty)])
   \<and> nonParamElements (exampleCatalog [sampled]) = [] @ sampled # []
   \<and> entries (Values sampled) = [''a'' \<mapsto> 10, ''b'' \<mapsto> 20]
   \<and> (\<exists>metric.
         entries (Some [''CPU/SystemSummary/x'' \<mapsto>
                  (newMetric sampled)\<lparr>values := normalised identityNormalise sampled\<rparr>])
           (makeKey sampled) = Some metric
         \<and> entries (values metric) = [''a'' \<mapsto> 10, ''b'' \<mapsto> 20]
         \<and> nonParamElements (exampleCatalog [exampleElement ''x'' ''first'' (Some Map.empty)]) ! 0
             = sampled\<lparr>Values := Some Map.empty\<rparr>)"
proof -
  have u: "updateMetrics identityNormalise (fst (initialiseMetrics (exampleCatalog [sampled])))
       (exampleCatalog [sampled]) =
     Inr (Some [''CPU/SystemSummary/x'' \<mapsto>
                  (newMetric sampled)\<lparr>values := normalised identityNormalise sampled\<rparr>],
          exampleCatalog [exampleElement ''x'' ''first'' (Some Map.empty)])"
    using updateMetrics_example [of identityNormalise "''x''" "''first''" "Some [''a'' \<mapsto> 10, ''b'' \<mapsto> 20]"]
    by (simp add: sampled_def)
  have p: "nonParamElements (exampleCatalog [sampled]) = [] @ sampled # []"
    by (simp add: nonParamElements_example)
  have q: "\<forall>e' \<in> set []. makeKey e' \<noteq> makeKey sampled" by simp
  have v: "entries (Values sampled) = [''a'' \<mapsto> 10, ''b'' \<mapsto> 20]"
    by (simp add: sampled_def exampleElement_def entries_def)
  have i: "\<forall>label v. identityNormalise sampled label v = (\<lambda>x. x) v"
    by (simp add: identityNormalise_def)
  from updateMetrics_roundtrip [OF u p q v i] u p v show ?thesis
    by auto
qed

text \<open>
  As stated, without the condition on later elements, claim C5 fails: when a second
  element with the same key and an empty cache is visited later, the values mapping of
  the shared metric ends up empty.
\<close>

theorem updateMetrics_roundtrip_counterexample:
  "nonParamElements (exampleCatalog [sampled, duplicate]) = [sampled, duplicate]
   \<and> entries (Values sampled) = [''a'' \<mapsto> 10, ''b'' \<mapsto> 20]
   \<and> makeKey sampled = ''CPU/SystemSummary/x''
   \<and> fst (initialiseMetrics (exampleCatalog [sampled, duplicate])) =
       Some [''CPU/SystemSummary/x'' \<mapsto> newMetric sampled]
   \<and> updateMetrics identityNormalise (Some [''CPU/SystemSummary/x'' \<mapsto> newMetric sampled])
         (exampleCatalog [sampled, duplicate]) =
       Inr (Some [''CPU/SystemSummary/x'' \<mapsto> (newMetric sampled)\<lparr>values := Some Map.empty\<rparr>],
            exampleCatalog [consume sampled, consume duplicate])
   \<and> Map.empty \<noteq> [''a'' \<mapsto> 10 :: int64, ''b'' \<mapsto> 20]"
proof -
  have n: "normalised identityNormalise duplicate = Some Map.empty"
    by (simp add: normalised_def duplicate_def exampleElement_def entries_def)
  have u: "updateMetrics identityNormalise (Some [''CPU/SystemSummary/x'' \<mapsto> newMetric sampled])
         (exampleCatalog [sampled, duplicate]) =
       Inr (Some [''CPU/SystemSummary/x'' \<mapsto> (newMetric sampled)\<lparr>values := Some Map.empty\<rparr>],
            exampleCatalog [consume sampled, consume duplicate])"
    by (simp add: updateMetrics_eq nonParamElements_example keysPresent_def entries_def
        makeKey_sampled makeKey_duplicate refresh_def consumeClass_example n)
  have v: "entries (Values sampled) = [''a'' \<mapsto> 10, ''b'' \<mapsto> 20]"
    by (simp add: sampled_def exampleElement_def entries_def)
  have d: "Map.empty \<noteq> [''a'' \<mapsto> 10 :: int64, ''b'' \<mapsto> 20]"
    by (metis map_upd_nonempty)
  show ?thesis
    using u v d by (simp add: nonParamElements_example makeKey_sampled initialiseMetrics_colliding)
qed

text \<open>
  Claim C9. \<^verbatim>\<open>updateMetrics\<close> returns exactly when the derived key of every
  non-parameterized element of the catalog is in the registry; otherwise the lookup
  yields the nil pointer and the write to its \<^verbatim>\<open>values\<close> field panics. A nil registry
  panics as soon as the catalog has one non-parameterized element. A registry built by
  \<^verbatim>\<open>initialiseMetrics\<close> from a catalog serves every catalog whose non-parameterized keys
  are among those of the first, in particular the same one.
\<close>

theorem updateMetrics_panics_iff:
  "(updateMetrics N reg cat = Inl NilPointerDereference)
      = (\<exists>e \<in> set (nonParamElements cat). entries reg (makeKey e) = None)
   \<and> (\<exists>r. updateMetrics N reg cat = Inr r)
      = (\<forall>e \<in> set (nonParamElements cat). entries reg (makeKey e) \<noteq> None)
   \<and> (updateMetrics N None cat = Inl NilPointerDereference)
      = (nonParamElements cat \<noteq> [])
   \<and> (makeKey ` set (nonParamElements Metrics') \<subseteq> makeKey ` set (nonParamElements cat)
      \<longrightarrow> (\<exists>r. updateMetrics N (fst (initialiseMetrics cat)) Metrics' = Inr r))"
proof -
  have 1: "(updateMetrics N reg cat = Inl NilPointerDereference)
      = (\<exists>e \<in> set (nonParamElements cat). entries reg (makeKey e) = None)"
    by (simp add: updateMetrics_eq keysPresent_iff)
  have 2: "(\<exists>r. updateMetrics N reg cat = Inr r)
      = (\<forall>e \<in> set (nonParamElements cat). entries reg (makeKey e) \<noteq> None)"
    by (simp add: updateMetrics_eq keysPresent_iff)
  have 3: "(updateMetrics N None cat = Inl NilPointerDereference)
      = (nonParamElements cat \<noteq> [])"
    by (cases "nonParamElements cat") (auto simp: updateMetrics_eq keysPresent_iff entries_def)
  have 4: "\<exists>r. updateMetrics N (fst (initialiseMetrics cat)) Metrics' = Inr r"
    if "makeKey ` set (nonParamElements Metrics') \<subseteq> makeKey ` set (nonParamElements cat)"
  proof -
    have "dom (entries (fst (initialiseMetrics cat) :: 'a registry)) = makeKey ` set (nonParamElements cat)"
      by (simp add: initialiseMetrics_registry entries_def initialiseElements_dom)
    with that have "\<forall>e \<in> set (nonParamElements Metrics'). makeKey e \<in> dom (entries (fst (initialiseMetrics cat) :: 'a registry))"
      by blast
    then have "\<forall>e \<in> set (nonParamElements Metrics'). entries (fst (initialiseMetrics cat) :: 'a registry) (makeKey e) \<noteq> None"
      by (simp only: domIff)
    then show ?thesis by (simp add: updateMetrics_eq keysPresent_iff)
  qed
  show ?thesis using 1 2 3 4 by blast
qed

theorem updateMetrics_panics_iff_witness:
  "updateMetrics identityNormalise None (exampleCatalog [sampled]) = Inl NilPointerDereference
   \<and> (\<exists>r. updateMetrics identityNormalise (fst (initialiseMetrics (exampleCatalog [sampled])))
             (exampleCatalog [sampled]) = Inr r)"
  using updateMetrics_panics_iff [of identityNormalise None "exampleCatalog [sampled]"
      "exampleCatalog [sampled]"]
  by (simp add: nonParamElements_example)

section \<open>The registry covers the catalog during a connection\<close>

lemma typeElements_publish:
  "typeElements (publishType pub t) = map (\<lambda>e. e\<lparr>Values := pub e\<rparr>) (typeElements t)"
  by (simp add: typeElements_def publishType_def)

lemma classElements_publish:
  "classElements (publishClass pub c) = map (\<lambda>e. e\<lparr>Values := pub e\<rparr>) (classElements c)"
  by (simp add: classElements_def publishClass_def map_concat typeElements_publish comp_def)

lemma nonParamElements_publish:
  "nonParamElements (ProcessPublications pub cat) =
     map (\<lambda>e. e\<lparr>Values := pub e\<rparr>) (nonParamElements cat)"
  by (simp add: nonParamElements_def ProcessPublications_def map_concat classElements_publish comp_def)

lemma makeKey_Values: "makeKey (e\<lparr>Values := v\<rparr>) = makeKey e"
  by (simp add: makeKey_def)

lemma keysPresent_publish:
  "keysPresent m (nonParamElements (ProcessPublications pub cat)) = keysPresent m (nonParamElements cat)"
  by (simp add: nonParamElements_publish keysPresent_def list_all_iff makeKey_Values)

lemma updateMetrics_covers:
  assumes "updateMetrics N reg cat = Inr (reg', cat')"
  shows "keysPresent (entries reg') (nonParamElements cat')"
proof -
  let ?es = "nonParamElements cat"
  from assms have kp: "keysPresent (entries reg) ?es"
    and m1: "reg' = map_option (\<lambda>_. foldl (refresh N) (entries reg) ?es) reg"
    and M1: "cat' = cat\<lparr>Classes := map consumeClass (Classes cat)\<rparr>"
    by (simp_all add: updateMetrics_eq split: if_splits)
  have es1: "nonParamElements cat' = map consume ?es"
    unfolding M1 by (rule nonParamElements_consume)
  have "entries reg' (makeKey e) \<noteq> None" if e: "e \<in> set ?es" for e
  proof -
    from kp e have "entries reg (makeKey e) \<noteq> None" by (simp add: keysPresent_iff)
    then have "reg \<noteq> None" by (cases reg) (simp_all add: entries_def)
    then have "entries reg' = foldl (refresh N) (entries reg) ?es"
      unfolding m1 by (rule entries_map_option)
    with kp e show ?thesis by (simp add: foldl_refresh_None keysPresent_iff)
  qed
  then have "keysPresent (entries reg') ?es"
    unfolding keysPresent_iff by blast
  then show ?thesis
    by (simp add: es1 keysPresent_consume)
qed

lemma updateMetrics_defined:
  "keysPresent (entries reg) (nonParamElements cat) \<Longrightarrow> \<exists>reg' cat'. updateMetrics N reg cat = Inr (reg', cat')"
  by (simp add: updateMetrics_eq)

lemma selectRequest_covers:
  assumes "registryCovers w"
  shows "\<exists>w' evs. selectRequest N w sel = Inr (w', evs) \<and> registryCovers w' \<and> first w' = first w"
proof (cases sel)
  case Timeout
  with assms show ?thesis by (simp add: selectRequest_def)
next
  case (Request collect)
  show ?thesis
  proof (cases collect)
    case False
    with Request assms show ?thesis by (simp add: selectRequest_def)
  next
    case True
    from assms obtain reg' cat' where u: "updateMetrics N (metrics w) (Metrics w) = Inr (reg', cat')"
      using updateMetrics_defined [of "metrics w" "Metrics w" N] by (auto simp: registryCovers_def)
    from updateMetrics_covers [OF u] show ?thesis
      by (simp add: selectRequest_def Request True u registryCovers_def)
  qed
qed

lemma innerIteration_covers:
  assumes "registryCovers w"
  shows "\<exists>w' evs. innerIteration N w inp = Inr (w', publicationsError inp, evs)
           \<and> registryCovers w' \<and> first w' = first w"
proof -
  let ?w1 = "w\<lparr>Metrics := ProcessPublications (published inp) (Metrics w)\<rparr>"
  from assms have "registryCovers ?w1"
    by (simp add: registryCovers_def keysPresent_publish)
  from selectRequest_covers [OF this, of N "selected inp"]
  obtain w' evs where "selectRequest N ?w1 (selected inp) = Inr (w', evs)"
    and "registryCovers w'" and "first w' = first w" by auto
  then show ?thesis by (simp add: innerIteration_def Let_def)
qed

lemma onConnected_covers: "registryCovers (fst (onConnected w cat))"
proof -
  have "dom (entries (fst (initialiseMetrics cat) :: 'a registry)) = makeKey ` set (nonParamElements cat)"
    by (simp add: initialiseMetrics_registry entries_def initialiseElements_dom)
  then have "\<forall>e \<in> set (nonParamElements cat). makeKey e \<in> dom (entries (fst (initialiseMetrics cat) :: 'a registry))"
    by blast
  then have "keysPresent (entries (fst (initialiseMetrics cat) :: 'a registry)) (nonParamElements cat)"
    by (simp only: keysPresent_iff domIff)
  then show ?thesis
    by (auto simp: onConnected_def registryCovers_def split: prod.split)
qed

lemma selectRequest_Inr:
  "selectRequest N w sel = Inr (w', evs) \<Longrightarrow> first w' = first w \<and> list_all serviceEvent evs"
  by (cases sel) (auto simp: selectRequest_def split: if_splits sum.splits)

lemma selectRequest_Inl:
  "selectRequest N w sel = Inl evs \<Longrightarrow> list_all serviceEvent evs"
  by (cases sel) (auto simp: selectRequest_def split: if_splits sum.splits)

lemma innerIteration_Inr:
  "innerIteration N w inp = Inr (w', err, evs) \<Longrightarrow> first w' = first w \<and> list_all serviceEvent evs"
  by (auto simp: innerIteration_def Let_def split: sum.splits dest: selectRequest_Inr)

lemma innerIteration_Inl:
  "innerIteration N w inp = Inl evs \<Longrightarrow> list_all serviceEvent evs"
  by (auto simp: innerIteration_def Let_def split: sum.splits dest: selectRequest_Inl)

lemma innerLoop_service:
  "innerLoop N w err inputs = (w', ex, evs) \<Longrightarrow> first w' = first w \<and> list_all serviceEvent evs"
proof (induction N w err inputs arbitrary: w' ex evs rule: innerLoop.induct)
  case (1 N w e inputs)
  then show ?case by simp
next
  case (2 N w)
  then show ?case by simp
next
  case (3 N w inp rest)
  show ?case
  proof (cases "innerIteration N w inp")
    case (Inl evs0)
    with "3.prems" innerIteration_Inl [OF Inl] show ?thesis by simp
  next
    case (Inr r)
    obtain w1 err1 evs1 where r: "r = (w1, err1, evs1)" by (cases r)
    obtain w2 ex2 evs2 where l: "innerLoop N w1 err1 rest = (w2, ex2, evs2)"
      by (cases "innerLoop N w1 err1 rest")
    from "3.IH" [OF Inr [unfolded r] refl refl l] innerIteration_Inr [OF Inr [unfolded r]] "3.prems"
    show ?thesis by (auto simp: Inr r l)
  qed
qed

lemma innerLoop_covers:
  "registryCovers w \<Longrightarrow> innerLoop N w err inputs = (w', ex, evs)
   \<Longrightarrow> ex \<noteq> Crashed \<and> registryCovers w'"
proof (induction N w err inputs arbitrary: w' ex evs rule: innerLoop.induct)
  case (1 N w e inputs)
  then show ?case by auto
next
  case (2 N w)
  then show ?case by auto
next
  case (3 N w inp rest)
  from innerIteration_covers [OF "3.prems"(1), of N inp]
  obtain w1 evs1 where i: "innerIteration N w inp = Inr (w1, publicationsError inp, evs1)"
    and c: "registryCovers w1" by blast
  obtain w2 ex2 evs2 where l: "innerLoop N w1 (publicationsError inp) rest = (w2, ex2, evs2)"
    by (cases "innerLoop N w1 (publicationsError inp) rest")
  from "3.IH" [OF i refl refl c l] "3.prems"(2)
  show ?case by (simp add: i l)
qed

lemma processMetrics_stop:
  "\<not> keepRunning inp \<Longrightarrow> processMetrics N qm w (inp # rest) = (w, Returned, [])"
  by simp

lemma processMetrics_failed:
  assumes "keepRunning inp" and "doConnect qm (connecting inp) = Some e"
  shows "processMetrics N qm w (inp # rest) =
           (fst (processMetrics N qm w rest), fst (snd (processMetrics N qm w rest)),
            DoConnect (Some e) # connectionLost e @ trace (processMetrics N qm w rest))"
  using assms by (simp add: connectionLost_def trace_def split: prod.split)

lemma processMetrics_connected:
  assumes "keepRunning inp" and "doConnect qm (connecting inp) = None"
    and "onConnected w (discovered (connecting inp) (Metrics w)) = (w1, evs1)"
    and "innerLoop N w1 None (servicing inp) = (w2, ex, evs2)"
  shows "processMetrics N qm w (inp # rest) =
           (case ex of
              Broke e \<Rightarrow>
                (fst (processMetrics N qm w2 rest), fst (snd (processMetrics N qm w2 rest)),
                 DoConnect None # evs1 @ evs2 @ connectionLost e @ trace (processMetrics N qm w2 rest))
            | Pending \<Rightarrow> (w2, Running, DoConnect None # evs1 @ evs2)
            | Crashed \<Rightarrow> (w2, Crash, DoConnect None # evs1 @ evs2))"
  using assms by (simp add: connectionLost_def trace_def split: prod.split loop_exit.split)

lemma processMetrics_never_crashes:
  "fst (snd (processMetrics N qm w script)) \<noteq> Crash"
proof (induction script arbitrary: w)
  case Nil
  show ?case by simp
next
  case (Cons inp rest)
  show ?case
  proof (cases "keepRunning inp")
    case False
    then show ?thesis by simp
  next
    case True
    show ?thesis
    proof (cases "doConnect qm (connecting inp)")
      case (Some e)
      show ?thesis
        unfolding processMetrics_failed [OF True Some] using Cons.IH by simp
    next
      case None
      obtain w1 evs1 where c: "onConnected w (discovered (connecting inp) (Metrics w)) = (w1, evs1)"
        by (cases "onConnected w (discovered (connecting inp) (Metrics w))")
      obtain w2 ex evs2 where l: "innerLoop N w1 None (servicing inp) = (w2, ex, evs2)"
        by (cases "innerLoop N w1 None (servicing inp)")
      have "registryCovers w1"
        using onConnected_covers [of w "discovered (connecting inp) (Metrics w)"] c by simp
      from innerLoop_covers [OF this l] have "ex \<noteq> Crashed" by simp
      then show ?thesis
        unfolding processMetrics_connected [OF True None c l] using Cons.IH
        by (cases ex) simp_all
    qed
  qed
qed

section \<open>Servicing requests\<close>

text \<open>
  Claim C1. One pass of the inner loop, started in a state whose registry covers the
  catalog (as it does throughout a connection, see \<open>onConnected_covers\<close> and
  \<open>innerIteration_covers\<close>). After the publications step the \<^verbatim>\<open>select\<close> takes one
  case. When a request is received with flag true, \<^verbatim>\<open>updateMetrics\<close> runs on the
  registry and then the registry it left is sent; with flag false the registry is sent
  as it is; in both cases what is sent is the worker's current registry. On a timeout
  nothing is sent. A pass receives at most one request and sends one reply per request.
\<close>

theorem request_served:
  assumes "registryCovers w"
  shows "\<exists>w' evs.
           innerIteration N w inp =
             Inr (w', publicationsError inp, Publications (publicationsError inp) # evs)
           \<and> (case selected inp of
                 Request collect \<Rightarrow>
                   evs = Receive collect # (if collect then [UpdateMetrics] else [])
                           @ [Respond (metrics w')]
                   \<and> (if collect
                        then updateMetrics N (metrics w)
                               (ProcessPublications (published inp) (Metrics w))
                             = Inr (metrics w', Metrics w')
                        else metrics w' = metrics w)
               | Timeout \<Rightarrow>
                   evs = [Debugf ''Metrics: No requests received within timeout period (10 seconds)'']
                   \<and> metrics w' = metrics w)
           \<and> length (filter isReceive evs) \<le> 1
           \<and> length (filter isRespond evs) = length (filter isReceive evs)"
proof -
  let ?w1 = "w\<lparr>Metrics := ProcessPublications (published inp) (Metrics w)\<rparr>"
  have c1: "registryCovers ?w1"
    using assms by (simp add: registryCovers_def keysPresent_publish)
  show ?thesis
  proof (cases "selected inp")
    case Timeout
    then show ?thesis by (simp add: innerIteration_def selectRequest_def Let_def)
  next
    case (Request collect)
    show ?thesis
    proof (cases collect)
      case False
      with Request show ?thesis by (simp add: innerIteration_def selectRequest_def Let_def)
    next
      case True
      from c1 obtain reg' cat' where
        u: "updateMetrics N (metrics w) (ProcessPublications (published inp) (Metrics w)) = Inr (reg', cat')"
        using updateMetrics_defined [of "metrics ?w1" "Metrics ?w1" N]
        by (auto simp: registryCovers_def)
      show ?thesis
        by (simp add: innerIteration_def selectRequest_def Let_def Request True u)
    qed
  qed
qed

theorem request_served_witness:
  "registryCovers (fst (onConnected (initialWorker :: int64 worker) (exampleCatalog [sampled])))
   \<and> (\<exists>w' evs.
         innerIteration identityNormalise
           (fst (onConnected initialWorker (exampleCatalog [sampled])))
           \<lparr>published = Values, publicationsError = None, selected = Request True\<rparr>
           = Inr (w', None, Publications None # evs)
         \<and> evs = [Receive True, UpdateMetrics, Respond (metrics w')])"
proof -
  have c: "registryCovers (fst (onConnected (initialWorker :: int64 worker) (exampleCatalog [sampled])))"
    by (rule onConnected_covers)
  from request_served [OF c, of identityNormalise
      "\<lparr>published = Values, publicationsError = None, selected = Request True\<rparr>"] c
  show ?thesis by auto
qed

lemma selectRequest_no_refresh:
  "sel \<noteq> Request True \<Longrightarrow> selectRequest N w sel = Inr (w', evs)
   \<Longrightarrow> w' = w \<and> (\<forall>r. Respond r \<in> set evs \<longrightarrow> r = metrics w)"
  by (cases sel) (auto simp: selectRequest_def split: if_splits)

lemma selectRequest_no_refresh_Inr:
  "sel \<noteq> Request True \<Longrightarrow> \<exists>r. selectRequest N w sel = Inr r"
  by (cases sel) (auto simp: selectRequest_def split: if_splits)

lemma innerLoop_no_refresh:
  "\<forall>i \<in> set inputs. selected i \<noteq> Request True \<Longrightarrow> innerLoop N w err inputs = (w', ex, evs)
   \<Longrightarrow> metrics w' = metrics w \<and> (\<forall>r. Respond r \<in> set evs \<longrightarrow> r = metrics w)"
proof (induction N w err inputs arbitrary: w' ex evs rule: innerLoop.induct)
  case (1 N w e inputs)
  then show ?case by auto
next
  case (2 N w)
  then show ?case by auto
next
  case (3 N w inp rest)
  let ?w1 = "w\<lparr>Metrics := ProcessPublications (published inp) (Metrics w)\<rparr>"
  from "3.prems"(1) have s: "selected inp \<noteq> Request True" by simp
  from selectRequest_no_refresh_Inr [OF s, of N ?w1]
  obtain wa evsa where sr: "selectRequest N ?w1 (selected inp) = Inr (wa, evsa)" by auto
  from selectRequest_no_refresh [OF s sr]
  have wa: "wa = ?w1" and ra: "\<forall>r. Respond r \<in> set evsa \<longrightarrow> r = metrics w" by simp_all
  have i: "innerIteration N w inp = Inr (?w1, publicationsError inp, Publications (publicationsError inp) # evsa)"
    by (simp add: innerIteration_def Let_def sr [unfolded wa])
  obtain w2 ex2 evs2 where l: "innerLoop N ?w1 (publicationsError inp) rest = (w2, ex2, evs2)"
    by (cases "innerLoop N ?w1 (publicationsError inp) rest")
  from "3.prems"(1) have "\<forall>i \<in> set rest. selected i \<noteq> Request True" by simp
  from "3.IH" [OF i refl refl this l]
  have "metrics w2 = metrics w" and "\<forall>r. Respond r \<in> set evs2 \<longrightarrow> r = metrics w" by simp_all
  with ra "3.prems"(2) show ?case by (auto simp: i l)
qed

lemma initialiseMetrics_unset:
  "entries (fst (initialiseMetrics cat)) k = Some metric \<Longrightarrow> values metric = None"
  by (auto simp: initialiseMetrics_registry entries_def initialiseElements_lookup newMetric_def
      split: option.splits)

lemma onConnected_eq:
  "onConnected (w :: 'f worker) cat =
     (w\<lparr>first := False, metrics := fst (initialiseMetrics cat), Metrics := cat\<rparr>,
      (if first w then [WgDone] else []) @
      map Errorf (snd (snd (initialiseMetrics cat :: 'f registry \<times> string option \<times> string list))))"
  by (cases "first w") (simp_all add: onConnected_def split: prod.split)

text \<open>
  Claim C10. Every metric that \<^verbatim>\<open>initialiseMetrics\<close> creates has a nil, hence empty,
  values mapping. During a connection in which no request asks for a refresh, every
  registry sent on the response channel is the one \<^verbatim>\<open>initialiseMetrics\<close> built, so
  every metric in it has empty values.
\<close>

theorem snapshot_before_refresh:
  "(\<forall>k metric. entries (fst (initialiseMetrics cat) :: 'f registry) k = Some metric
        \<longrightarrow> values metric = None \<and> entries (values metric) = Map.empty)
   \<and> (keepRunning inp \<and> connecting inp = Connected cat
        \<and> (\<forall>i \<in> set (servicing inp). selected i \<noteq> Request True)
      \<longrightarrow> (\<forall>r :: 'f registry. Respond r \<in> set (trace (processMetrics N qm w [inp]))
             \<longrightarrow> r = fst (initialiseMetrics cat)
                 \<and> (\<forall>k metric. entries r k = Some metric
                       \<longrightarrow> values metric = None \<and> entries (values metric) = Map.empty)))"
proof -
  have a: "values metric = None \<and> entries (values metric) = Map.empty"
    if "entries (fst (initialiseMetrics cat)) k = Some metric" for k and metric :: "'f metricData"
    using initialiseMetrics_unset [OF that] by (simp add: entries_def)
  have b: "r = fst (initialiseMetrics cat)"
    if k: "keepRunning inp" and c: "connecting inp = Connected cat"
      and n: "\<forall>i \<in> set (servicing inp). selected i \<noteq> Request True"
      and r: "Respond r \<in> set (trace (processMetrics N qm w [inp]))" for r :: "'f registry"
  proof -
    have d: "doConnect qm (connecting inp) = None" by (simp add: c)
    obtain w1 evs1 where oc: "onConnected w (discovered (connecting inp) (Metrics w)) = (w1, evs1)"
      by (cases "onConnected w (discovered (connecting inp) (Metrics w))")
    then have m1: "metrics w1 = fst (initialiseMetrics cat)"
      and e1: "\<forall>r. Respond r \<notin> set evs1"
      by (auto simp: onConnected_eq c)
    obtain w2 ex evs2 where l: "innerLoop N w1 None (servicing inp) = (w2, ex, evs2)"
      by (cases "innerLoop N w1 None (servicing inp)")
    from innerLoop_no_refresh [OF n l]
    have e2: "\<forall>r. Respond r \<in> set evs2 \<longrightarrow> r = metrics w1" by simp
    have t: "trace (processMetrics N qm w [inp]) =
               DoConnect None # evs1 @ evs2 @ (case ex of Broke e \<Rightarrow> connectionLost e | _ \<Rightarrow> [])"
      unfolding processMetrics_connected [OF k d oc l]
      by (cases ex) (simp_all add: trace_def)
    have "Respond r \<notin> set (case ex of Broke e \<Rightarrow> connectionLost e | _ \<Rightarrow> [])"
      by (cases ex) (simp_all add: connectionLost_def)
    with r e1 have "Respond r \<in> set evs2"
      unfolding t by auto
    with e2 m1 show ?thesis by simp
  qed
  show ?thesis
  proof (intro conjI allI impI)
    fix k and metric :: "'f metricData"
    assume "entries (fst (initialiseMetrics cat)) k = Some metric"
    then show "values metric = None" and "entries (values metric) = Map.empty"
      using a by blast+
  next
    fix r :: "'f registry"
    assume h: "keepRunning inp \<and> connecting inp = Connected cat
        \<and> (\<forall>i \<in> set (servicing inp). selected i \<noteq> Request True)"
      and r: "Respond r \<in> set (trace (processMetrics N qm w [inp]))"
    show "r = fst (initialiseMetrics cat)" using b h r by blast
    then have e: "r = fst (initialiseMetrics cat)" .
    fix k and metric :: "'f metricData"
    assume "entries r k = Some metric"
    then show "values metric = None" and "entries (values metric) = Map.empty"
      using a unfolding e by blast+
  qed
qed

lemma snapshot_trace_example:
  "trace (processMetrics identityNormalise ''QM1'' initialWorker
       [\<lparr>keepRunning = True, connecting = Connected (exampleCatalog [sampled]),
         servicing = [\<lparr>published = Values, publicationsError = None,
                        selected = Request False\<rparr>]\<rparr>]) =
     [DoConnect None, WgDone, Publications None, Receive False,
      Respond (fst (initialiseMetrics (exampleCatalog [sampled])))]"
proof -
  have l: "snd (snd (initialiseMetrics (exampleCatalog [sampled])
             :: int64 registry \<times> string option \<times> string list)) = []"
    by (simp add: initialiseMetrics_def initialiseClasses_flat classElements_def typeElements_def
        exampleCatalog_def Let_def split: prod.split)
  show ?thesis
    by (simp add: trace_def onConnected_eq initialWorker_def innerIteration_def
        selectRequest_def Let_def l)
qed

theorem snapshot_before_refresh_witness:
  "entries (fst (initialiseMetrics (exampleCatalog [sampled])) :: int64 registry)
       ''CPU/SystemSummary/x'' = Some (newMetric sampled)
   \<and> values (newMetric sampled :: int64 metricData) = None
   \<and> entries (values (newMetric sampled :: int64 metricData)) = Map.empty
   \<and> Respond (fst (initialiseMetrics (exampleCatalog [sampled])))
       \<in> set (trace (processMetrics identityNormalise ''QM1'' initialWorker
           [\<lparr>keepRunning = True, connecting = Connected (exampleCatalog [sampled]),
             servicing = [\<lparr>published = Values, publicationsError = None,
                            selected = Request False\<rparr>]\<rparr>]))"
proof -
  have e: "entries (fst (initialiseMetrics (exampleCatalog [sampled])) :: int64 registry)
       ''CPU/SystemSummary/x'' = Some (newMetric sampled)"
    using initialiseMetrics_example [where ?'a = int64, of "''x''" "''first''" "Some [''a'' \<mapsto> 10, ''b'' \<mapsto> 20]"]
    by (simp add: sampled_def entries_def)
  from snapshot_before_refresh [where ?'f = int64, of "exampleCatalog [sampled]"] e
  have "values (newMetric sampled :: int64 metricData) = None
        \<and> entries (values (newMetric sampled :: int64 metricData)) = Map.empty"
    by blast
  with e show ?thesis unfolding snapshot_trace_example by (simp add: entries_def)
qed

end
